theory Spec2Isabelle
  imports Complex_Main
begin

section \<open>Distributed evaluation of an image-captioning model\<close>

text \<open>
  A shallow embedding of \<^verbatim>\<open>image_captioning/engine/inference.py\<close> and of the driver
  function \<^verbatim>\<open>test\<close> of \<^verbatim>\<open>tools/test_net.py\<close>.

  Conventions of the embedding:
  \<^item> a Python exception is a value of \<open>error\<close>; a function that can raise returns
    \<open>error + 'a\<close>, with \<open>Inl\<close> for the exception;
  \<^item> the calls a function makes to its collaborators (model, criterion, decoder, scorer,
    collectives, file output) are recorded in a list of events returned next to the result,
    also when the function raises;
  \<^item> Python floats and the values held by scalar tensors are real numbers: rounding, NaN
    and the infinities are not modelled;
  \<^item> the model, the criterion, the beam-search decoder, the vocabulary conversion and the
    scorer are parameters that return a value: an exception inside one of them, which the
    source lets propagate, is outside the embedding;
  \<^item> a collective call returns to a process under the assumption that its peers reach the
    same call: a process blocked forever on a missing peer is outside the embedding.
\<close>

subsection \<open>Python values and exceptions\<close>

datatype error =
    ZeroDivisionError
  | IndexError
  | KeyError
  | TypeError
  | ValueError
  | AttributeError
  | NotATensor  \<comment> \<open>raised by \<^verbatim>\<open>torch.distributed\<close> when the argument of a collective is not a tensor\<close>

text \<open>
  The values that flow through the prediction path. A dict is the list of its items in
  insertion order; a Python dict never holds a key twice and never holds an unhashable key.
\<close>

datatype pyval =
    PNone
  | PInt int
  | PStr string
  | PList "pyval list"
  | PDict "(pyval \<times> pyval) list"

text \<open>The loss is a Python float inside \<^verbatim>\<open>compute_on_dataset\<close>; \<^verbatim>\<open>dist.reduce\<close> works on tensors.\<close>

datatype lossval =
    LFloat real
  | LTensor real

fun hashable :: "pyval \<Rightarrow> bool" where
  "hashable (PList _) = False"
| "hashable (PDict _) = False"
| "hashable _ = True"

text \<open>\<^verbatim>\<open>d[k] = v\<close>: an existing key keeps its position and takes the new value.\<close>

fun dict_store :: "(pyval \<times> pyval) list \<Rightarrow> pyval \<Rightarrow> pyval \<Rightarrow> (pyval \<times> pyval) list" where
  "dict_store [] k v = [(k, v)]"
| "dict_store ((k', v') # d) k v = (if k' = k then (k, v) # d else (k', v') # dict_store d k v)"

definition dict_setitem ::
  "(pyval \<times> pyval) list \<Rightarrow> pyval \<Rightarrow> pyval \<Rightarrow> error + (pyval \<times> pyval) list" where
  "dict_setitem d k v = (if hashable k then Inr (dict_store d k v) else Inl TypeError)"

text \<open>Iterating a value: a list gives its elements, a dict its keys, a string its characters.\<close>

fun py_iter :: "pyval \<Rightarrow> error + pyval list" where
  "py_iter (PList xs) = Inr xs"
| "py_iter (PDict d) = Inr (map fst d)"
| "py_iter (PStr s) = Inr (map (\<lambda>ch. PStr [ch]) s)"
| "py_iter _ = Inl TypeError"

text \<open>\<^verbatim>\<open>v[key]\<close> for a string key, as the verbose loop of the driver uses it.\<close>

fun py_getitem_str :: "pyval \<Rightarrow> string \<Rightarrow> error + pyval" where
  "py_getitem_str (PDict d) key =
     (case map_of d (PStr key) of None \<Rightarrow> Inl KeyError | Some v \<Rightarrow> Inr v)"
| "py_getitem_str _ key = Inl TypeError"

text \<open>
  \<^verbatim>\<open>dict.update(other)\<close>. A dict argument is copied item by item. Any other argument is
  iterated, and each element must itself iterate to exactly two values, the key and the
  value: an element that is not iterable raises TypeError, one of another length ValueError.
\<close>

fun update_items ::
  "(pyval \<times> pyval) list \<Rightarrow> (pyval \<times> pyval) list \<Rightarrow> error + (pyval \<times> pyval) list" where
  "update_items d [] = Inr d"
| "update_items d ((k, v) # kvs) =
     (case dict_setitem d k v of Inl e \<Rightarrow> Inl e | Inr d' \<Rightarrow> update_items d' kvs)"

fun update_pairs ::
  "(pyval \<times> pyval) list \<Rightarrow> pyval list \<Rightarrow> error + (pyval \<times> pyval) list" where
  "update_pairs d [] = Inr d"
| "update_pairs d (x # xs) =
     (case py_iter x of
        Inl e \<Rightarrow> Inl e
      | Inr [k, v] \<Rightarrow>
          (case dict_setitem d k v of Inl e \<Rightarrow> Inl e | Inr d' \<Rightarrow> update_pairs d' xs)
      | Inr _ \<Rightarrow> Inl ValueError)"

fun dict_update :: "(pyval \<times> pyval) list \<Rightarrow> pyval \<Rightarrow> error + (pyval \<times> pyval) list" where
  "dict_update d (PDict other) = update_items d other"
| "dict_update d other =
     (case py_iter other of Inl e \<Rightarrow> Inl e | Inr xs \<Rightarrow> update_pairs d xs)"

subsection \<open>Events\<close>

datatype event =
    Forward nat          \<comment> \<open>\<^verbatim>\<open>model(fc_features, att_fatures, captions)\<close> on batch \<open>i\<close>\<close>
  | Criterion nat        \<comment> \<open>\<^verbatim>\<open>criterion(outputs, captions[:, 1:], cap_lens+1)\<close> on batch \<open>i\<close>\<close>
  | DecodeSearch nat     \<comment> \<open>\<^verbatim>\<open>model.decode_search(...)\<close> on batch \<open>i\<close>\<close>
  | DecodeSequence nat   \<comment> \<open>\<^verbatim>\<open>decode_sequence(vocab, seqs)\<close> on batch \<open>i\<close>\<close>
  | ReduceLoss           \<comment> \<open>\<^verbatim>\<open>reduce_loss(loss)\<close>\<close>
  | Synchronize          \<comment> \<open>\<^verbatim>\<open>synchronize()\<close>, the barrier\<close>
  | AllGather            \<comment> \<open>\<^verbatim>\<open>all_gather(predictions_per_gpu)\<close>\<close>
  | CocoEval             \<comment> \<open>\<^verbatim>\<open>coco_eval(predictions, dataset_name)\<close>\<close>
  | JsonDump pyval       \<comment> \<open>\<^verbatim>\<open>json.dump(predictions, open(file_name, 'w'))\<close>\<close>
  | LogSaved
  | LogMetric string real
  | LogPrediction pyval pyval

subsection \<open>The shard evaluator: \<^verbatim>\<open>compute_on_dataset\<close>\<close>

text \<open>
  The collaborators of the batch loop, over a type \<open>'b\<close> of batches, \<open>'o\<close> of model outputs
  and \<open>'q\<close> of decoded token sequences. \<open>criterion\<close> stands for the call of the criterion
  followed by \<^verbatim>\<open>loss.item()\<close>, \<open>cocoids\<close> for \<^verbatim>\<open>data['cocoids']\<close>, a list of integer
  image identifiers.
\<close>

record ('b, 'o, 'q) collab =
  model_forward :: "'b \<Rightarrow> 'o"
  criterion :: "'o \<Rightarrow> 'b \<Rightarrow> real"
  decode_search :: "'b \<Rightarrow> nat \<Rightarrow> 'q"
  decode_sequence :: "'q \<Rightarrow> string list"
  cocoids :: "'b \<Rightarrow> int list"

text \<open>\<^verbatim>\<open>entry = {'image_id': cocoids[k], 'caption': sent}\<close>\<close>

definition mk_entry :: "int \<Rightarrow> string \<Rightarrow> pyval" where
  "mk_entry i sent = PDict [(PStr ''image_id'', PInt i), (PStr ''caption'', PStr sent)]"

text \<open>
  The inner loop \<^verbatim>\<open>for k, sent in enumerate(sents)\<close>, on the list of predictions and the
  dict \<^verbatim>\<open>done_ids\<close>. \<^verbatim>\<open>cocoids[k]\<close> raises IndexError when the decoder returned more
  sentences than the batch has identifiers.
\<close>

fun append_entries ::
  "int list \<Rightarrow> nat \<Rightarrow> string list \<Rightarrow> pyval list \<times> (int \<rightharpoonup> int)
     \<Rightarrow> error + (pyval list \<times> (int \<rightharpoonup> int))" where
  "append_entries ids k [] st = Inr st"
| "append_entries ids k (sent # rest) (preds, done_ids) =
     (if k < length ids then
        (let entry = mk_entry (ids ! k) sent in
         if done_ids (ids ! k) = None
         then append_entries ids (Suc k) rest (preds @ [entry], done_ids(ids ! k \<mapsto> 0))
         else append_entries ids (Suc k) rest (preds, done_ids))
      else Inl IndexError)"

record cod_state =
  val_loss_sum :: real
  val_loss_count :: nat
  predictions :: "pyval list"
  done_ids :: "int \<rightharpoonup> int"

definition cod_init :: cod_state where
  "cod_init = \<lparr>val_loss_sum = 0, val_loss_count = 0, predictions = [], done_ids = Map.empty\<rparr>"

text \<open>The loop \<^verbatim>\<open>for i, data in enumerate(data_loader)\<close>, from batch index \<open>i\<close> on.\<close>

fun batch_loop ::
  "('b, 'o, 'q) collab \<Rightarrow> nat \<Rightarrow> nat \<Rightarrow> 'b list \<Rightarrow> cod_state \<Rightarrow> event list
     \<Rightarrow> event list \<times> (error + cod_state)" where
  "batch_loop c beam_size i [] st evs = (evs, Inr st)"
| "batch_loop c beam_size i (data # rest) st evs =
     (let outputs = model_forward c data;
          val_loss = criterion c outputs data;
          st1 = st\<lparr>val_loss_count := val_loss_count st + 1,
                   val_loss_sum := val_loss_sum st + val_loss\<rparr>;
          seqs = decode_search c data beam_size;
          sents = decode_sequence c seqs;
          evs1 = evs @ [Forward i, Criterion i, DecodeSearch i, DecodeSequence i]
      in case append_entries (cocoids c data) 0 sents (predictions st1, done_ids st1) of
           Inl e \<Rightarrow> (evs1, Inl e)
         | Inr (preds, seen) \<Rightarrow>
             batch_loop c beam_size (Suc i) rest (st1\<lparr>predictions := preds, done_ids := seen\<rparr>) evs1)"

text \<open>
  \<^verbatim>\<open>return predictions, val_loss_sum / val_loss_count\<close>: a float divided by the integer
  zero raises ZeroDivisionError.
\<close>

definition compute_on_dataset ::
  "('b, 'o, 'q) collab \<Rightarrow> nat \<Rightarrow> 'b list \<Rightarrow> event list \<times> (error + (pyval list \<times> real))" where
  "compute_on_dataset c beam_size data_loader =
     (case batch_loop c beam_size 0 data_loader cod_init [] of
        (evs, Inl e) \<Rightarrow> (evs, Inl e)
      | (evs, Inr st) \<Rightarrow>
          if val_loss_count st = 0 then (evs, Inl ZeroDivisionError)
          else (evs, Inr (predictions st, val_loss_sum st / real (val_loss_count st))))"

subsection \<open>The process group\<close>

text \<open>
  What one process sees of the group: its identity, and what its peers contribute to the
  two collectives. \<open>peer_losses\<close> are the values the other processes pass to
  \<^verbatim>\<open>dist.reduce\<close>, \<open>peer_predictions\<close> what they pass to \<^verbatim>\<open>all_gather\<close>, both in rank
  order. \<open>nonroot_buffer\<close> is what the backend leaves in the tensor of a process that is
  not the destination of the reduction.
\<close>

record env =
  world_size :: nat
  rank :: nat
  peer_losses :: "real list"
  peer_predictions :: "pyval list"
  nonroot_buffer :: "real \<Rightarrow> real"

definition wf_env :: "env \<Rightarrow> bool" where
  "wf_env g \<longleftrightarrow> rank g < world_size g
     \<and> length (peer_losses g) + 1 = world_size g
     \<and> length (peer_predictions g) + 1 = world_size g"

text \<open>
  Modelled from the spec: \<^verbatim>\<open>get_world_size\<close> of \<^verbatim>\<open>image_captioning/utils/comm.py\<close>, which
  is not among the sources; \<open>worldSize()\<close> of section 4.1, the number of cooperating
  processes, 1 in single-process mode.
\<close>

definition get_world_size :: "env \<Rightarrow> nat" where
  "get_world_size g = world_size g"

text \<open>
  Modelled from the spec: \<^verbatim>\<open>is_main_process\<close> of \<^verbatim>\<open>image_captioning/utils/comm.py\<close>, which
  is not among the sources; rank 0 is the designated root (section 3).
\<close>

definition is_main_process :: "env \<Rightarrow> bool" where
  "is_main_process g \<longleftrightarrow> rank g = 0"

text \<open>
  Modelled from the spec: \<^verbatim>\<open>all_gather\<close> of \<^verbatim>\<open>image_captioning/utils/comm.py\<close>, which is
  not among the sources; \<open>gatherToRoot\<close> of section 4.1: the sequence of all processes'
  values, the caller's own included, indexed by rank.
\<close>

definition all_gather :: "env \<Rightarrow> pyval \<Rightarrow> pyval list" where
  "all_gather g data = take (rank g) (peer_predictions g) @ [data] @ drop (rank g) (peer_predictions g)"

text \<open>
  \<^verbatim>\<open>dist.reduce(loss, dst=0)\<close> of \<^verbatim>\<open>torch.distributed\<close>: the argument must be a tensor; it
  is overwritten in place, on the destination with the sum over all processes.
\<close>

definition dist_reduce :: "env \<Rightarrow> lossval \<Rightarrow> error + lossval" where
  "dist_reduce g loss =
     (case loss of
        LTensor x \<Rightarrow>
          Inr (LTensor (if rank g = 0 then sum_list (x # peer_losses g) else nonroot_buffer g x))
      | LFloat x \<Rightarrow> Inl NotATensor)"

text \<open>\<^verbatim>\<open>loss /= world_size\<close>\<close>

fun idiv :: "lossval \<Rightarrow> nat \<Rightarrow> lossval" where
  "idiv (LTensor x) n = LTensor (x / real n)"
| "idiv (LFloat x) n = LFloat (x / real n)"

subsection \<open>The global reducer: \<^verbatim>\<open>reduce_loss\<close> and the merge of the predictions\<close>

definition reduce_loss :: "env \<Rightarrow> lossval \<Rightarrow> error + lossval" where
  "reduce_loss g loss =
     (let world_size = get_world_size g in
      if world_size < 2 then Inr loss
      else (case dist_reduce g loss of
              Inl e \<Rightarrow> Inl e
            | Inr loss' \<Rightarrow> if rank g = 0 then Inr (idiv loss' world_size) else Inr loss'))"

text \<open>The loop \<^verbatim>\<open>for p in all_predictions: predictions.update(p)\<close>.\<close>

fun update_all :: "(pyval \<times> pyval) list \<Rightarrow> pyval list \<Rightarrow> error + (pyval \<times> pyval) list" where
  "update_all d [] = Inr d"
| "update_all d (p # ps) =
     (case dict_update d p of Inl e \<Rightarrow> Inl e | Inr d' \<Rightarrow> update_all d' ps)"

definition accumulate_predictions_from_multiple_gpus :: "env \<Rightarrow> pyval \<Rightarrow> error + pyval" where
  "accumulate_predictions_from_multiple_gpus g predictions_per_gpu =
     (let all_predictions = all_gather g predictions_per_gpu in
      if \<not> is_main_process g then Inr PNone
      else (case update_all [] all_predictions of
              Inl e \<Rightarrow> Inl e
            | Inr d \<Rightarrow> Inr (PDict d)))"

subsection \<open>The orchestrator: \<^verbatim>\<open>inference\<close>\<close>

type_synonym metrics = "(string \<times> real) list"

type_synonym inference_result = "lossval option \<times> pyval \<times> metrics option"

definition inference ::
  "env \<Rightarrow> ('b, 'o, 'q) collab \<Rightarrow> (pyval \<Rightarrow> metrics) \<Rightarrow> nat \<Rightarrow> 'b list
     \<Rightarrow> event list \<times> (error + inference_result)" where
  "inference g c coco_eval beam_size data_loader =
     (case compute_on_dataset c beam_size data_loader of
        (evs, Inl e) \<Rightarrow> (evs, Inl e)
      | (evs, Inr (preds, loss)) \<Rightarrow>
          (case reduce_loss g (LFloat loss) of
             Inl e \<Rightarrow> (evs @ [ReduceLoss], Inl e)
           | Inr loss_reduced \<Rightarrow>
               (case accumulate_predictions_from_multiple_gpus g (PList preds) of
                  Inl e \<Rightarrow> (evs @ [ReduceLoss, Synchronize, AllGather], Inl e)
                | Inr merged \<Rightarrow>
                    if \<not> is_main_process g
                    then (evs @ [ReduceLoss, Synchronize, AllGather], Inr (None, PNone, None))
                    else (evs @ [ReduceLoss, Synchronize, AllGather, CocoEval],
                          Inr (Some loss_reduced, merged, Some (coco_eval merged))))))"

subsection \<open>The driver: \<^verbatim>\<open>test\<close>\<close>

text \<open>The loop \<^verbatim>\<open>for pred in predictions\<close> of the verbose mode.\<close>

fun log_each :: "pyval list \<Rightarrow> event list \<Rightarrow> event list \<times> (error + unit)" where
  "log_each [] evs = (evs, Inr ())"
| "log_each (pred # rest) evs =
     (case py_getitem_str pred ''image_id'' of
        Inl e \<Rightarrow> (evs, Inl e)
      | Inr i \<Rightarrow>
          (case py_getitem_str pred ''caption'' of
             Inl e \<Rightarrow> (evs, Inl e)
           | Inr cap \<Rightarrow> log_each rest (evs @ [LogPrediction i cap])))"

text \<open>
  \<^verbatim>\<open>test\<close> from the call of \<^verbatim>\<open>inference\<close> on; what precedes it builds the collaborators.
  \<^verbatim>\<open>scores.items()\<close> raises AttributeError when \<^verbatim>\<open>scores\<close> is None.
\<close>

definition test ::
  "env \<Rightarrow> ('b, 'o, 'q) collab \<Rightarrow> (pyval \<Rightarrow> metrics) \<Rightarrow> nat \<Rightarrow> bool \<Rightarrow> 'b list
     \<Rightarrow> event list \<times> (error + unit)" where
  "test g c coco_eval beam_size verbose data_loader =
     (case inference g c coco_eval beam_size data_loader of
        (evs, Inl e) \<Rightarrow> (evs, Inl e)
      | (evs, Inr (loss, preds, scores)) \<Rightarrow>
          (let evs1 = evs @ [JsonDump preds, LogSaved] in
           case scores of
             None \<Rightarrow> (evs1, Inl AttributeError)
           | Some sc \<Rightarrow>
               (let evs2 = evs1 @ map (\<lambda>(metric, score). LogMetric metric score) sc in
                if verbose then
                  (case py_iter preds of
                     Inl e \<Rightarrow> (evs2, Inl e)
                   | Inr ps \<Rightarrow> log_each ps evs2)
                else (evs2, Inr ()))))"

subsection \<open>A concrete collaborator\<close>

text \<open>
  For the examples: a batch carries its identifiers, the loss the criterion reports for it
  and the sentences the decoder produces for it.
\<close>

record batch =
  b_ids :: "int list"
  b_loss :: real
  b_sents :: "string list"

definition demo :: "(batch, real, string list) collab" where
  "demo = \<lparr>model_forward = b_loss, criterion = (\<lambda>outputs data. outputs),
           decode_search = (\<lambda>data beam_size. b_sents data), decode_sequence = (\<lambda>seqs. seqs),
           cocoids = b_ids\<rparr>"

definition single :: env where
  "single = \<lparr>world_size = 1, rank = 0, peer_losses = [], peer_predictions = [],
             nonroot_buffer = (\<lambda>x. x)\<rparr>"

definition demo_eval :: "pyval \<Rightarrow> metrics" where
  "demo_eval preds = [(''CIDEr'', 1)]"

section \<open>Notions of the specification\<close>

subsection \<open>Observations, first occurrences, events of the local evaluation\<close>

definition sents_of :: "('b, 'o, 'q) collab \<Rightarrow> nat \<Rightarrow> 'b \<Rightarrow> string list" where
  "sents_of c beam_size data = decode_sequence c (decode_search c data beam_size)"

definition batch_loss :: "('b, 'o, 'q) collab \<Rightarrow> 'b \<Rightarrow> real" where
  "batch_loss c data = criterion c (model_forward c data) data"

text \<open>The (itemId, caption) observations of a shard, batch after batch.\<close>

definition batch_observations :: "('b, 'o, 'q) collab \<Rightarrow> nat \<Rightarrow> 'b \<Rightarrow> (int \<times> string) list" where
  "batch_observations c beam_size data = zip (cocoids c data) (sents_of c beam_size data)"

definition observations :: "('b, 'o, 'q) collab \<Rightarrow> nat \<Rightarrow> 'b list \<Rightarrow> (int \<times> string) list" where
  "observations c beam_size bs = concat (map (batch_observations c beam_size) bs)"

text \<open>
  The deduplicator of section 4.3, written after the specification: the sequence that
  retains only the first occurrence per itemId, computed with a set of the identifiers
  seen so far.
\<close>

fun first_occurrences_from :: "int set \<Rightarrow> (int \<times> string) list \<Rightarrow> (int \<times> string) list" where
  "first_occurrences_from seen [] = []"
| "first_occurrences_from seen ((i, s) # obs) =
     (if i \<in> seen then first_occurrences_from seen obs
      else (i, s) # first_occurrences_from (insert i seen) obs)"

definition first_occurrences :: "(int \<times> string) list \<Rightarrow> (int \<times> string) list" where
  "first_occurrences obs = first_occurrences_from {} obs"

text \<open>The dict \<^verbatim>\<open>done_ids\<close> after a sequence of observations.\<close>

fun mark_seen :: "(int \<rightharpoonup> int) \<Rightarrow> (int \<times> string) list \<Rightarrow> (int \<rightharpoonup> int)" where
  "mark_seen d [] = d"
| "mark_seen d ((i, s) # obs) = mark_seen (if d i = None then d(i \<mapsto> 0) else d) obs"

definition entries :: "(int \<times> string) list \<Rightarrow> pyval list" where
  "entries obs = map (\<lambda>(i, s). mk_entry i s) obs"

definition batch_events :: "nat \<Rightarrow> event list" where
  "batch_events i = [Forward i, Criterion i, DecodeSearch i, DecodeSequence i]"

text \<open>The events of \<open>n\<close> consecutive batches, from batch \<open>i\<close> on.\<close>

definition local_eval_events :: "nat \<Rightarrow> nat \<Rightarrow> event list" where
  "local_eval_events i n = concat (map batch_events [i..<i + n])"

text \<open>Every example of every batch carries an identifier: no sentence without a \<^verbatim>\<open>cocoids[k]\<close>.\<close>

definition well_formed :: "('b, 'o, 'q) collab \<Rightarrow> nat \<Rightarrow> 'b list \<Rightarrow> bool" where
  "well_formed c beam_size bs \<longleftrightarrow>
     (\<forall>data \<in> set bs. length (sents_of c beam_size data) \<le> length (cocoids c data))"

subsection \<open>Concrete runs\<close>

definition shard_7_7_9 :: "batch list" where
  "shard_7_7_9 =
     [\<lparr>b_ids = [7], b_loss = 2, b_sents = [''a cat'']\<rparr>,
      \<lparr>b_ids = [7, 9], b_loss = 4, b_sents = [''a dog'', ''a bird'']\<rparr>]"

definition shard_2_4_6 :: "batch list" where
  "shard_2_4_6 =
     [\<lparr>b_ids = [1, 2, 3], b_loss = 2, b_sents = [''a'', ''b'', ''c'']\<rparr>,
      \<lparr>b_ids = [4], b_loss = 4, b_sents = [''d'']\<rparr>,
      \<lparr>b_ids = [5, 6], b_loss = 6, b_sents = [''e'', ''f'']\<rparr>]"

definition shard_dup :: "batch list" where
  "shard_dup =
     [\<lparr>b_ids = [1, 2], b_loss = 1, b_sents = [''a'', ''b'']\<rparr>,
      \<lparr>b_ids = [2, 1], b_loss = 5, b_sents = [''c'', ''d'']\<rparr>,
      \<lparr>b_ids = [3], b_loss = 3, b_sents = [''e'']\<rparr>]"

text \<open>Rank 0 of two processes whose peer gathered a list of entries, as the evaluator returns it.\<close>

definition root_of_two :: env where
  "root_of_two = \<lparr>world_size = 2, rank = 0, peer_losses = [3],
     peer_predictions = [PList [mk_entry 1 ''a dog'', mk_entry 2 ''a dog running'']],
     nonroot_buffer = (\<lambda>x. x)\<rparr>"

definition rank1_of_two :: env where
  "rank1_of_two = \<lparr>world_size = 2, rank = 1, peer_losses = [3],
     peer_predictions = [PList [mk_entry 1 ''a cat'']],
     nonroot_buffer = (\<lambda>x. x)\<rparr>"

definition root_of_three :: env where
  "root_of_three = \<lparr>world_size = 3, rank = 0, peer_losses = [2, 3],
     peer_predictions = [PList [], PList []], nonroot_buffer = (\<lambda>x. x)\<rparr>"

section \<open>Lemmas\<close>

subsection \<open>The inner loop and the batch loop\<close>

lemma dom_mark_seen: "dom (mark_seen d obs) = dom d \<union> fst ` set obs"
  by (induction d obs rule: mark_seen.induct) (auto split: if_splits)

lemma first_occurrences_from_append:
  "first_occurrences_from seen (xs @ ys) =
     first_occurrences_from seen xs @ first_occurrences_from (seen \<union> fst ` set xs) ys"
  by (induction seen xs rule: first_occurrences_from.induct) (auto simp: insert_absorb)

lemma mark_seen_append: "mark_seen d (xs @ ys) = mark_seen (mark_seen d xs) ys"
  by (induction d xs rule: mark_seen.induct) auto

text \<open>When every remaining sentence has an identifier, the inner loop appends the entries of the
  first occurrences among the identifiers not yet in \<^verbatim>\<open>done_ids\<close>, and marks them.\<close>

lemma append_entries_ok:
  "k + length sents \<le> length ids \<Longrightarrow>
   append_entries ids k sents (preds, d) =
     Inr (preds @ entries (first_occurrences_from (dom d) (zip (drop k ids) sents)),
          mark_seen d (zip (drop k ids) sents))"
proof (induction sents arbitrary: k preds d)
  case Nil
  then show ?case by (simp add: entries_def)
next
  case (Cons sent rest)
  then have k: "k < length ids" and rest: "Suc k + length rest \<le> length ids" by auto
  from k have dr: "drop k ids = ids ! k # drop (Suc k) ids"
    by (simp add: Cons_nth_drop_Suc)
  let ?i = "ids ! k"
  show ?case
  proof (cases "?i \<in> dom d")
    case False
    then have "append_entries ids k (sent # rest) (preds, d) =
        append_entries ids (Suc k) rest (preds @ [mk_entry ?i sent], d(?i \<mapsto> 0))"
      using k by (simp add: Let_def domIff)
    also have "\<dots> = Inr ((preds @ [mk_entry ?i sent])
          @ entries (first_occurrences_from (dom (d(?i \<mapsto> 0))) (zip (drop (Suc k) ids) rest)),
        mark_seen (d(?i \<mapsto> 0)) (zip (drop (Suc k) ids) rest))"
      by (rule Cons.IH [OF rest])
    also have "\<dots> = Inr (preds @ entries (first_occurrences_from (dom d) (zip (drop k ids) (sent # rest))),
        mark_seen d (zip (drop k ids) (sent # rest)))"
      using False by (simp add: dr entries_def domIff)
    finally show ?thesis .
  next
    case True
    then have "append_entries ids k (sent # rest) (preds, d) =
        append_entries ids (Suc k) rest (preds, d)"
      using k by (auto simp: Let_def)
    also have "\<dots> = Inr (preds @ entries (first_occurrences_from (dom d) (zip (drop (Suc k) ids) rest)),
        mark_seen d (zip (drop (Suc k) ids) rest))"
      by (rule Cons.IH [OF rest])
    also have "\<dots> = Inr (preds @ entries (first_occurrences_from (dom d) (zip (drop k ids) (sent # rest))),
        mark_seen d (zip (drop k ids) (sent # rest)))"
      using True by (auto simp: dr)
    finally show ?thesis .
  qed
qed

text \<open>A sentence beyond the identifiers of its batch raises IndexError.\<close>

lemma append_entries_IndexError:
  "k \<le> length ids \<Longrightarrow> length ids < k + length sents \<Longrightarrow>
   append_entries ids k sents (preds, d) = Inl IndexError"
proof (induction sents arbitrary: k preds d)
  case Nil then show ?case by simp
next
  case (Cons sent rest)
  show ?case
  proof (cases "k < length ids")
    case True
    with Cons.prems have "Suc k \<le> length ids" "length ids < Suc k + length rest" by simp_all
    from Cons.IH [OF this] True show ?thesis by (simp add: Let_def)
  next
    case False then show ?thesis by simp
  qed
qed

lemma local_eval_events_0 [simp]: "local_eval_events i 0 = []"
  by (simp add: local_eval_events_def)

lemma local_eval_events_Suc: "local_eval_events i (Suc n) = batch_events i @ local_eval_events (Suc i) n"
  by (simp add: local_eval_events_def upt_rec)

lemma local_eval_events_add:
  "local_eval_events i (n + m) = local_eval_events i n @ local_eval_events (i + n) m"
  by (induction n arbitrary: i) (simp_all add: local_eval_events_Suc)

lemma observations_append:
  "observations c beam_size (xs @ ys) = observations c beam_size xs @ observations c beam_size ys"
  by (simp add: observations_def)

lemma observations_Cons:
  "observations c beam_size (data # ys) = batch_observations c beam_size data @ observations c beam_size ys"
  by (simp add: observations_def)

text \<open>The state and the events after the whole loop.\<close>

lemma batch_loop_ok:
  "well_formed c beam_size bs \<Longrightarrow>
   batch_loop c beam_size i bs st evs =
     (evs @ local_eval_events i (length bs),
      Inr \<lparr>val_loss_sum = val_loss_sum st + sum_list (map (batch_loss c) bs),
           val_loss_count = val_loss_count st + length bs,
           predictions = predictions st
             @ entries (first_occurrences_from (dom (done_ids st)) (observations c beam_size bs)),
           done_ids = mark_seen (done_ids st) (observations c beam_size bs)\<rparr>)"
proof (induction bs arbitrary: i st evs)
  case Nil
  then show ?case by (simp add: observations_def entries_def)
next
  case (Cons data rest)
  from Cons.prems have wf: "well_formed c beam_size rest"
    and len: "0 + length (sents_of c beam_size data) \<le> length (cocoids c data)"
    by (simp_all add: well_formed_def)
  let ?obs = "zip (cocoids c data) (sents_of c beam_size data)"
  have obs: "observations c beam_size (data # rest) = ?obs @ observations c beam_size rest"
    by (simp add: observations_def batch_observations_def)
  show ?case
    using append_entries_ok [OF len, of "predictions st" "done_ids st"]
    by (simp add: Let_def Cons.IH [OF wf] obs first_occurrences_from_append mark_seen_append
        dom_mark_seen local_eval_events_Suc batch_events_def sents_of_def batch_loss_def
        entries_def add.assoc)
qed

lemma compute_on_dataset_ok:
  assumes "well_formed c beam_size bs" and "bs \<noteq> []"
  shows "compute_on_dataset c beam_size bs =
     (local_eval_events 0 (length bs),
      Inr (entries (first_occurrences (observations c beam_size bs)),
           sum_list (map (batch_loss c) bs) / real (length bs)))"
  using assms
  by (simp add: compute_on_dataset_def batch_loop_ok cod_init_def first_occurrences_def)

text \<open>Whenever the loop returns, also without \<open>well_formed\<close>, the sum and the count are those
  of all batches.\<close>

lemma batch_loop_loss:
  "batch_loop c beam_size i bs st evs = (evs', Inr st') \<Longrightarrow>
   val_loss_sum st' = val_loss_sum st + sum_list (map (batch_loss c) bs)
   \<and> val_loss_count st' = val_loss_count st + length bs"
proof (induction bs arbitrary: i st evs)
  case Nil
  then show ?case by simp
next
  case (Cons data rest)
  let ?st1 = "st\<lparr>val_loss_count := val_loss_count st + 1,
                 val_loss_sum := val_loss_sum st + batch_loss c data\<rparr>"
  let ?evs1 = "evs @ [Forward i, Criterion i, DecodeSearch i, DecodeSequence i]"
  show ?case
  proof (cases "append_entries (cocoids c data) 0 (sents_of c beam_size data)
                  (predictions st, done_ids st)")
    case (Inl e)
    with Cons.prems show ?thesis
      by (simp add: Let_def sents_of_def)
  next
    case (Inr r)
    obtain preds seen where r: "r = (preds, seen)" by (cases r)
    with Inr Cons.prems
    have "batch_loop c beam_size (Suc i) rest (?st1\<lparr>predictions := preds, done_ids := seen\<rparr>) ?evs1
        = (evs', Inr st')"
      by (simp add: Let_def sents_of_def batch_loss_def)
    from Cons.IH [OF this] show ?thesis by simp
  qed
qed

subsection \<open>First occurrences\<close>

lemma remdups_snoc: "remdups (ys @ [i]) = remdups (filter (\<lambda>y. y \<noteq> i) ys) @ [i]"
  by (induction ys) auto

text \<open>\<open>remdups\<close> keeps the last occurrence of each element, so on the reversed list it keeps the
  first: \<open>rev (remdups (rev xs))\<close> is the list of the distinct elements of \<open>xs\<close> in the
  order of their first appearance.\<close>

lemma first_occurrences_from_ids:
  "map fst (first_occurrences_from seen obs) =
     rev (remdups (rev (filter (\<lambda>i. i \<notin> seen) (map fst obs))))"
proof (induction seen obs rule: first_occurrences_from.induct)
  case (1 seen)
  then show ?case by simp
next
  case (2 seen i s obs)
  show ?case
  proof (cases "i \<in> seen")
    case True
    with 2 show ?thesis by simp
  next
    case False
    have "filter (\<lambda>y. y \<noteq> i) (rev (filter (\<lambda>j. j \<notin> seen) (map fst obs)))
        = rev (filter (\<lambda>j. j \<notin> insert i seen) (map fst obs))"
      by (simp add: rev_filter [symmetric] conj_commute)
    with False 2 show ?thesis by (simp add: remdups_snoc)
  qed
qed

lemma first_occurrences_from_map_of:
  "map_of (first_occurrences_from seen obs) i = (if i \<in> seen then None else map_of obs i)"
  by (induction seen obs rule: first_occurrences_from.induct) auto

lemma first_occurrences_from_seen:
  "fst ` set obs \<subseteq> seen \<Longrightarrow> first_occurrences_from seen obs = []"
  by (induction seen obs rule: first_occurrences_from.induct) auto

lemma first_occurrences_ids:
  "map fst (first_occurrences obs) = rev (remdups (rev (map fst obs)))"
  by (simp add: first_occurrences_def first_occurrences_from_ids)

lemma first_occurrences_map_of: "map_of (first_occurrences obs) = map_of obs"
  by (rule ext) (simp add: first_occurrences_def first_occurrences_from_map_of)

lemma first_occurrences_distinct: "distinct (map fst (first_occurrences obs))"
  by (simp add: first_occurrences_ids)

lemma first_occurrences_set: "set (map fst (first_occurrences obs)) = set (map fst obs)"
  unfolding first_occurrences_ids by simp

lemma first_occurrences_drop_seen:
  "fst ` set ys \<subseteq> fst ` set xs \<Longrightarrow> first_occurrences (xs @ ys @ zs) = first_occurrences (xs @ zs)"
  by (simp add: first_occurrences_def first_occurrences_from_append first_occurrences_from_seen
      Un_absorb2)

subsection \<open>The events of a run\<close>

text \<open>The events of the loop are those of its first \<open>n\<close> batches, all of them when it returns.\<close>

lemma batch_loop_trace:
  "\<exists>n \<le> length bs. fst (batch_loop c beam_size i bs st evs) = evs @ local_eval_events i n
      \<and> (\<forall>st'. snd (batch_loop c beam_size i bs st evs) = Inr st' \<longrightarrow> n = length bs)"
proof (induction bs arbitrary: i st evs)
  case Nil
  then show ?case by simp
next
  case (Cons data rest)
  let ?st1 = "st\<lparr>val_loss_count := val_loss_count st + 1,
                 val_loss_sum := val_loss_sum st + batch_loss c data\<rparr>"
  let ?evs1 = "evs @ batch_events i"
  show ?case
  proof (cases "append_entries (cocoids c data) 0 (sents_of c beam_size data)
                  (predictions st, done_ids st)")
    case (Inl e)
    then have "batch_loop c beam_size i (data # rest) st evs = (evs @ local_eval_events i 1, Inl e)"
      by (simp add: Let_def sents_of_def local_eval_events_Suc batch_events_def)
    then show ?thesis
      by (intro exI [of _ 1]) simp
  next
    case (Inr r)
    obtain preds seen where r: "r = (preds, seen)" by (cases r)
    let ?st2 = "?st1\<lparr>predictions := preds, done_ids := seen\<rparr>"
    from Inr r have step: "batch_loop c beam_size i (data # rest) st evs
        = batch_loop c beam_size (Suc i) rest ?st2 ?evs1"
      by (simp add: Let_def sents_of_def batch_loss_def batch_events_def)
    from Cons.IH [of "Suc i" ?st2 ?evs1]
    obtain n where n: "n \<le> length rest"
      "fst (batch_loop c beam_size (Suc i) rest ?st2 ?evs1) = ?evs1 @ local_eval_events (Suc i) n"
      "\<forall>st'. snd (batch_loop c beam_size (Suc i) rest ?st2 ?evs1) = Inr st' \<longrightarrow> n = length rest"
      by blast
    show ?thesis
      unfolding step using n
      by (intro exI [of _ "Suc n"]) (simp add: local_eval_events_Suc)
  qed
qed

lemma compute_on_dataset_trace:
  "\<exists>n \<le> length bs. fst (compute_on_dataset c beam_size bs) = local_eval_events 0 n
      \<and> (\<forall>r. snd (compute_on_dataset c beam_size bs) = Inr r \<longrightarrow> n = length bs)"
proof -
  from batch_loop_trace [of bs c beam_size 0 cod_init "[]"]
  obtain n where n: "n \<le> length bs"
    "fst (batch_loop c beam_size 0 bs cod_init []) = local_eval_events 0 n"
    "\<forall>st'. snd (batch_loop c beam_size 0 bs cod_init []) = Inr st' \<longrightarrow> n = length bs"
    by auto
  obtain evs res where bl: "batch_loop c beam_size 0 bs cod_init [] = (evs, res)"
    by (cases "batch_loop c beam_size 0 bs cod_init []")
  with n show ?thesis
    by (intro exI [of _ n]) (auto simp: compute_on_dataset_def split: sum.splits)
qed

subsection \<open>Updating a dict\<close>

lemma dict_store_idem: "dict_store (dict_store d k v) k v = dict_store d k v"
  by (induction d k v rule: dict_store.induct) auto

text \<open>\<^verbatim>\<open>update\<close> with a list of entries reads each entry, a dict of two keys, as a pair: its
  two keys \<^verbatim>\<open>'image_id'\<close> and \<^verbatim>\<open>'caption'\<close> become the key and the value.\<close>

lemma update_pairs_entries:
  "update_pairs d (entries obs) =
     Inr (if obs = [] then d else dict_store d (PStr ''image_id'') (PStr ''caption''))"
proof (induction obs arbitrary: d)
  case Nil
  then show ?case by (simp add: entries_def)
next
  case (Cons ob rest)
  obtain i s where ob: "ob = (i, s)" by (cases ob)
  have "update_pairs d (entries (ob # rest))
      = update_pairs (dict_store d (PStr ''image_id'') (PStr ''caption'')) (entries rest)"
    by (simp add: ob entries_def mk_entry_def dict_setitem_def)
  then show ?case
    by (simp add: Cons.IH dict_store_idem)
qed

lemma update_all_entry_lists:
  "update_all d (map (\<lambda>obs. PList (entries obs)) obss) =
     Inr (if \<forall>obs \<in> set obss. obs = [] then d
          else dict_store d (PStr ''image_id'') (PStr ''caption''))"
proof (induction obss arbitrary: d)
  case Nil
  then show ?case by simp
next
  case (Cons obs rest)
  show ?case
    by (cases "obs = []") (simp_all add: update_pairs_entries Cons.IH dict_store_idem)
qed

text \<open>The merge of gathered lists of entries, which is what \<^verbatim>\<open>compute_on_dataset\<close> returns on
  every process: no identifier and no caption reaches the merged dict.\<close>

lemma merge_of_entry_lists:
  assumes "is_main_process g"
    and "all_gather g mine = map (\<lambda>obs. PList (entries obs)) obss"
  shows "accumulate_predictions_from_multiple_gpus g mine =
     Inr (PDict (if \<forall>obs \<in> set obss. obs = [] then []
                 else [(PStr ''image_id'', PStr ''caption'')]))"
  using assms
  by (simp add: accumulate_predictions_from_multiple_gpus_def update_all_entry_lists)

subsection \<open>The orchestrator and the driver\<close>

lemma reduce_loss_float:
  "2 \<le> world_size g \<Longrightarrow> reduce_loss g (LFloat y) = Inl NotATensor"
  by (simp add: reduce_loss_def get_world_size_def dist_reduce_def)

lemma inference_multi_process:
  assumes "2 \<le> world_size g"
  shows "\<exists>e. snd (inference g c coco_eval beam_size bs) = Inl e"
proof -
  obtain evs res where cod: "compute_on_dataset c beam_size bs = (evs, res)"
    by (cases "compute_on_dataset c beam_size bs")
  then show ?thesis
    by (cases res) (auto simp: inference_def reduce_loss_float [OF assms])
qed

text \<open>In a single process the loss passes through \<^verbatim>\<open>reduce_loss\<close> untouched, float or tensor.\<close>

lemma reduce_loss_single_process: "world_size g = 1 \<Longrightarrow> reduce_loss g v = Inr v"
  by (simp add: reduce_loss_def get_world_size_def)

text \<open>A multi-process call never reaches the barrier, the gather or the scoring.\<close>

lemma inference_multi_process_no_collectives:
  assumes "2 \<le> world_size g"
  shows "Synchronize \<notin> set (fst (inference g c coco_eval beam_size bs))
     \<and> AllGather \<notin> set (fst (inference g c coco_eval beam_size bs))
     \<and> CocoEval \<notin> set (fst (inference g c coco_eval beam_size bs))"
proof -
  from compute_on_dataset_trace [of bs c beam_size]
  obtain n where n: "fst (compute_on_dataset c beam_size bs) = local_eval_events 0 n"
    by blast
  obtain evs res where cod: "compute_on_dataset c beam_size bs = (evs, res)"
    by (cases "compute_on_dataset c beam_size bs")
  have "Synchronize \<notin> set (local_eval_events 0 n)" "AllGather \<notin> set (local_eval_events 0 n)"
    "CocoEval \<notin> set (local_eval_events 0 n)"
    by (auto simp: local_eval_events_def batch_events_def)
  with n cod show ?thesis
    by (cases res) (auto simp: inference_def reduce_loss_float [OF assms])
qed

text \<open>A process of rank other than 0 belongs to a group of at least two processes, so its call
  of \<^verbatim>\<open>inference\<close> raises.\<close>

lemma inference_non_root_in_group:
  "wf_env g \<Longrightarrow> \<not> is_main_process g \<Longrightarrow> \<exists>e. snd (inference g c coco_eval beam_size bs) = Inl e"
  by (rule inference_multi_process) (auto simp: wf_env_def is_main_process_def)

lemma inference_non_root_no_scoring:
  "\<not> is_main_process g \<Longrightarrow> CocoEval \<notin> set (fst (inference g c coco_eval beam_size bs))"
proof -
  assume nr: "\<not> is_main_process g"
  from compute_on_dataset_trace [of bs c beam_size]
  obtain n where n: "fst (compute_on_dataset c beam_size bs) = local_eval_events 0 n"
    by blast
  obtain evs res where cod: "compute_on_dataset c beam_size bs = (evs, res)"
    by (cases "compute_on_dataset c beam_size bs")
  have "CocoEval \<notin> set (local_eval_events 0 n)"
    by (auto simp: local_eval_events_def batch_events_def)
  with n cod nr show ?thesis
    by (auto simp: inference_def split: sum.splits prod.splits)
qed

text \<open>The only value \<^verbatim>\<open>inference\<close> can return on a process that is not the main one.\<close>

lemma inference_non_root_result:
  "\<not> is_main_process g \<Longrightarrow> snd (inference g c coco_eval beam_size bs) = Inr r \<Longrightarrow>
     r = (None, PNone, None)"
  by (auto simp: inference_def split: prod.splits sum.splits)

text \<open>What a single-process run returns for a shard with at least one batch.\<close>

lemma inference_single_process:
  assumes "well_formed c beam_size bs" and "bs \<noteq> []"
    and "world_size g = 1" and "rank g = 0" and "peer_predictions g = []"
  shows "snd (inference g c coco_eval beam_size bs) =
     Inr (Some (LFloat (sum_list (map (batch_loss c) bs) / real (length bs))),
          PDict (if observations c beam_size bs = [] then []
                 else [(PStr ''image_id'', PStr ''caption'')]),
          Some (coco_eval (PDict (if observations c beam_size bs = [] then []
                 else [(PStr ''image_id'', PStr ''caption'')]))))"
proof -
  let ?obs = "first_occurrences (observations c beam_size bs)"
  have e: "?obs = [] \<longleftrightarrow> observations c beam_size bs = []"
    using first_occurrences_set [of "observations c beam_size bs"]
    by (metis map_is_Nil_conv set_empty)
  have g: "all_gather g (PList (entries ?obs)) = map (\<lambda>obs. PList (entries obs)) [?obs]"
    using assms(4,5) by (simp add: all_gather_def)
  have m: "is_main_process g"
    using assms(4) by (simp add: is_main_process_def)
  show ?thesis
    using merge_of_entry_lists [OF m g] m e assms(3)
    by (simp add: inference_def compute_on_dataset_ok [OF assms(1,2)] reduce_loss_def
        get_world_size_def)
qed

text \<open>Given three nulls, the driver writes \<^verbatim>\<open>null\<close> and raises at \<^verbatim>\<open>scores.items()\<close>.\<close>

lemma test_null_results:
  "inference g c coco_eval beam_size bs = (evs, Inr (None, PNone, None)) \<Longrightarrow>
   test g c coco_eval beam_size verbose bs = (evs @ [JsonDump PNone, LogSaved], Inl AttributeError)"
  by (simp add: test_def)

section \<open>The claims\<close>

subsection \<open>C1: the merge of the gathered predictions\<close>

text \<open>Claim C1 states that the root-side merge of the gathered per-process prediction lists is
  a mapping keyed by itemId in which rank 0 takes precedence, so that rank 0 with the
  prediction for 1, "a cat", and rank 1 with the predictions for 1, "a dog", and 2,
  "a dog running", merge to \<open>{1: "a cat", 2: "a dog running"}\<close>. On these two lists, as
  \<^verbatim>\<open>compute_on_dataset\<close> returns them, the merge on rank 0 yields
  \<open>{'image_id': 'caption'}\<close>: no identifier and no caption is in it. The mapping that
  \<^verbatim>\<open>inference\<close> returns in a single-process run of two batches is the same.\<close>

theorem merge_of_prediction_lists_loses_entries:
  "is_main_process root_of_two
   \<and> all_gather root_of_two (PList [mk_entry 1 ''a cat''])
       = [PList [mk_entry 1 ''a cat''],
          PList [mk_entry 1 ''a dog'', mk_entry 2 ''a dog running'']]
   \<and> accumulate_predictions_from_multiple_gpus root_of_two (PList [mk_entry 1 ''a cat''])
       = Inr (PDict [(PStr ''image_id'', PStr ''caption'')])
   \<and> snd (inference single demo demo_eval 3 shard_7_7_9)
       = Inr (Some (LFloat 3), PDict [(PStr ''image_id'', PStr ''caption'')],
              Some [(''CIDEr'', 1)])"
  by (simp add: inference_def compute_on_dataset_def cod_init_def shard_7_7_9_def demo_def
      Let_def reduce_loss_def get_world_size_def single_def root_of_two_def
      accumulate_predictions_from_multiple_gpus_def all_gather_def is_main_process_def
      mk_entry_def dict_setitem_def demo_eval_def)

subsection \<open>C2: the loss reduction of a multi-process run\<close>

text \<open>Claim C2: with worldSize at least 2, \<^verbatim>\<open>reduce_loss\<close> raises on a Python float and returns
  on a tensor; \<^verbatim>\<open>inference\<close> passes it the float returned by \<^verbatim>\<open>compute_on_dataset\<close>, so
  whenever the local evaluation returns, \<^verbatim>\<open>inference\<close> raises right after entering the loss
  reduction, and no multi-process call of \<^verbatim>\<open>inference\<close> returns.\<close>

theorem reduce_loss_needs_tensor:
  assumes "2 \<le> world_size g"
  shows "reduce_loss g (LFloat x) = Inl NotATensor
     \<and> (\<exists>r. reduce_loss g (LTensor x) = Inr r)
     \<and> (\<forall>preds loss. snd (compute_on_dataset c beam_size bs) = Inr (preds, loss) \<longrightarrow>
           inference g c coco_eval beam_size bs
             = (fst (compute_on_dataset c beam_size bs) @ [ReduceLoss], Inl NotATensor))
     \<and> (\<exists>e. snd (inference g c coco_eval beam_size bs) = Inl e)"
proof -
  have f: "reduce_loss g (LFloat y) = Inl NotATensor" for y
    using assms by (simp add: reduce_loss_def get_world_size_def dist_reduce_def)
  have t: "\<exists>r. reduce_loss g (LTensor x) = Inr r"
    using assms by (simp add: reduce_loss_def get_world_size_def dist_reduce_def)
  obtain evs res where cod: "compute_on_dataset c beam_size bs = (evs, res)"
    by (cases "compute_on_dataset c beam_size bs")
  have i: "\<forall>preds loss. snd (compute_on_dataset c beam_size bs) = Inr (preds, loss) \<longrightarrow>
           inference g c coco_eval beam_size bs
             = (fst (compute_on_dataset c beam_size bs) @ [ReduceLoss], Inl NotATensor)"
    using cod by (auto simp: inference_def f)
  have e: "\<exists>e. snd (inference g c coco_eval beam_size bs) = Inl e"
    using cod by (cases res) (auto simp: inference_def f)
  from f t i e show ?thesis by blast
qed

text \<open>Claim C2 on rank 0 of two processes.\<close>

theorem reduce_loss_needs_tensor_witness:
  "2 \<le> world_size root_of_two
   \<and> snd (compute_on_dataset demo 3 shard_2_4_6)
       = Inr (entries [(1, ''a''), (2, ''b''), (3, ''c''), (4, ''d''), (5, ''e''), (6, ''f'')], 4)
   \<and> snd (inference root_of_two demo demo_eval 3 shard_2_4_6) = Inl NotATensor"
proof -
  have ws: "2 \<le> world_size root_of_two"
    by (simp add: root_of_two_def)
  have cod: "snd (compute_on_dataset demo 3 shard_2_4_6)
       = Inr (entries [(1, ''a''), (2, ''b''), (3, ''c''), (4, ''d''), (5, ''e''), (6, ''f'')], 4)"
    by (simp add: compute_on_dataset_def cod_init_def shard_2_4_6_def demo_def Let_def entries_def)
  from reduce_loss_needs_tensor [OF ws, of 0 demo 3 shard_2_4_6 demo_eval] cod ws
  show ?thesis by simp
qed

subsection \<open>C3: one prediction per identifier, the first occurrence\<close>

text \<open>Claim C3: for every non-empty sequence of batches whose examples carry identifiers, the
  prediction list returned by \<^verbatim>\<open>compute_on_dataset\<close> holds the entries of the first occurrences:
  exactly one entry per distinct identifier, in the order of first appearance, with the
  caption of the first occurrence (\<open>map_of\<close> returns the first match).\<close>

theorem compute_on_dataset_first_occurrence_wins:
  assumes "well_formed c beam_size bs" and "bs \<noteq> []"
  shows "\<exists>E loss. snd (compute_on_dataset c beam_size bs) = Inr (entries E, loss)
           \<and> E = first_occurrences (observations c beam_size bs)
           \<and> distinct (map fst E)
           \<and> set (map fst E) = set (map fst (observations c beam_size bs))
           \<and> map fst E = rev (remdups (rev (map fst (observations c beam_size bs))))
           \<and> map_of E = map_of (observations c beam_size bs)"
  using assms
  by (simp add: compute_on_dataset_ok first_occurrences_distinct first_occurrences_map_of
      first_occurrences_ids first_occurrences_set [simplified])

text \<open>Claim C3 on the identifiers 7, 7, 9 across two batches.\<close>

theorem compute_on_dataset_first_occurrence_wins_witness:
  "well_formed demo 3 shard_7_7_9 \<and> shard_7_7_9 \<noteq> []
   \<and> (\<exists>loss. snd (compute_on_dataset demo 3 shard_7_7_9)
         = Inr ([mk_entry 7 ''a cat'', mk_entry 9 ''a bird''], loss))"
proof -
  have wf: "well_formed demo 3 shard_7_7_9"
    by (simp add: well_formed_def shard_7_7_9_def demo_def sents_of_def)
  have ne: "shard_7_7_9 \<noteq> []"
    by (simp add: shard_7_7_9_def)
  have obs: "first_occurrences (observations demo 3 shard_7_7_9) = [(7, ''a cat''), (9, ''a bird'')]"
    by (simp add: first_occurrences_def observations_def batch_observations_def shard_7_7_9_def
        demo_def sents_of_def)
  from compute_on_dataset_first_occurrence_wins [OF wf ne] obs
  have "\<exists>loss. snd (compute_on_dataset demo 3 shard_7_7_9)
         = Inr ([mk_entry 7 ''a cat'', mk_entry 9 ''a bird''], loss)"
    by (auto simp: entries_def)
  with wf ne show ?thesis by simp
qed

subsection \<open>C4: the mean loss is a mean over batches\<close>

text \<open>Claim C4: the loss returned by \<^verbatim>\<open>compute_on_dataset\<close> is the sum of the per-batch losses
  divided by the number of batches, whatever the number of examples of each batch; and the
  call returns for every non-empty sequence of batches whose examples carry identifiers.\<close>

theorem compute_on_dataset_mean_loss:
  "(\<forall>preds loss. snd (compute_on_dataset c beam_size bs) = Inr (preds, loss)
       \<longrightarrow> loss = sum_list (map (batch_loss c) bs) / real (length bs))
   \<and> (well_formed c beam_size bs \<and> bs \<noteq> []
       \<longrightarrow> (\<exists>preds. snd (compute_on_dataset c beam_size bs)
              = Inr (preds, sum_list (map (batch_loss c) bs) / real (length bs))))"
proof (intro conjI allI impI)
  fix preds loss
  assume r: "snd (compute_on_dataset c beam_size bs) = Inr (preds, loss)"
  obtain evs res where bl: "batch_loop c beam_size 0 bs cod_init [] = (evs, res)"
    by (cases "batch_loop c beam_size 0 bs cod_init []")
  with r obtain st where st: "res = Inr st" and "val_loss_count st \<noteq> 0"
    and l: "loss = val_loss_sum st / real (val_loss_count st)"
    by (auto simp: compute_on_dataset_def split: sum.splits if_splits)
  from batch_loop_loss [OF bl [unfolded st]] l
  show "loss = sum_list (map (batch_loss c) bs) / real (length bs)"
    by (simp add: cod_init_def)
next
  assume "well_formed c beam_size bs \<and> bs \<noteq> []"
  then show "\<exists>preds. snd (compute_on_dataset c beam_size bs)
              = Inr (preds, sum_list (map (batch_loss c) bs) / real (length bs))"
    by (simp add: compute_on_dataset_ok)
qed

text \<open>Claim C4 on three batches of 3, 1 and 2 examples with losses 2, 4 and 6.\<close>

theorem compute_on_dataset_mean_loss_witness:
  "well_formed demo 3 shard_2_4_6 \<and> shard_2_4_6 \<noteq> []
   \<and> map (batch_loss demo) shard_2_4_6 = [2, 4, 6]
   \<and> map (\<lambda>data. length (b_ids data)) shard_2_4_6 = [3, 1, 2]
   \<and> (\<exists>preds. snd (compute_on_dataset demo 3 shard_2_4_6) = Inr (preds, 4))"
proof -
  have wf: "well_formed demo 3 shard_2_4_6 \<and> shard_2_4_6 \<noteq> []"
    by (simp add: well_formed_def shard_2_4_6_def demo_def sents_of_def)
  have ls: "map (batch_loss demo) shard_2_4_6 = [2, 4, 6]"
    by (simp add: shard_2_4_6_def demo_def batch_loss_def)
  have n: "length shard_2_4_6 = 3"
    by (simp add: shard_2_4_6_def)
  from compute_on_dataset_mean_loss [of demo 3 shard_2_4_6] wf
  have "\<exists>preds. snd (compute_on_dataset demo 3 shard_2_4_6)
      = Inr (preds, sum_list (map (batch_loss demo) shard_2_4_6) / real (length shard_2_4_6))"
    by blast
  then have "\<exists>preds. snd (compute_on_dataset demo 3 shard_2_4_6) = Inr (preds, 4)"
    by (simp add: ls n)
  with wf ls show ?thesis by (simp add: shard_2_4_6_def)
qed

subsection \<open>C5: the empty shard\<close>

text \<open>Claim C5: on a shard of zero batches \<^verbatim>\<open>compute_on_dataset\<close> raises ZeroDivisionError instead of
  returning a loss, and the exception reaches the callers \<^verbatim>\<open>inference\<close> and \<^verbatim>\<open>test\<close>.\<close>

theorem empty_shard_ZeroDivisionError:
  "compute_on_dataset c beam_size [] = ([], Inl ZeroDivisionError)
   \<and> inference g c coco_eval beam_size [] = ([], Inl ZeroDivisionError)
   \<and> test g c coco_eval beam_size verbose [] = ([], Inl ZeroDivisionError)"
  by (simp add: compute_on_dataset_def cod_init_def inference_def test_def)

subsection \<open>C6: what \<^verbatim>\<open>reduce_loss\<close> returns\<close>

text \<open>Claim C6 states that \<^verbatim>\<open>reduce_loss\<close> returns its input unchanged when worldSize is 1, and
  that with worldSize at least 2 the root's result is the sum of the local values divided
  by worldSize, so that worldSize 3 with local values 1.0, 2.0, 3.0 yields 2.0 on the
  root. In a single process the float is returned as it is. On rank 0 of three processes
  with the float 1.0, as \<^verbatim>\<open>inference\<close> passes it, the code raises in \<^verbatim>\<open>dist.reduce\<close> and
  returns no mean.\<close>

theorem reduce_loss_float_raises:
  "world_size single = 1 \<and> reduce_loss single (LFloat 1) = Inr (LFloat 1)
   \<and> world_size root_of_three = 3 \<and> rank root_of_three = 0
   \<and> peer_losses root_of_three = [2, 3]
   \<and> reduce_loss root_of_three (LFloat 1) = Inl NotATensor"
  by (simp add: single_def root_of_three_def reduce_loss_def get_world_size_def dist_reduce_def)

subsection \<open>C7: \<^verbatim>\<open>inference\<close> on a process that is not the root\<close>

text \<open>Claim C7 states that on every process that is not the root \<^verbatim>\<open>inference\<close> returns null for the
  loss, the predictions and the metrics. On rank 1 of two processes the code raises inside
  \<^verbatim>\<open>reduce_loss\<close>, before the barrier, the gather and the return of the three nulls.\<close>

theorem inference_non_root_raises:
  "\<not> is_main_process rank1_of_two
   \<and> inference rank1_of_two demo demo_eval 3 shard_7_7_9
       = ([Forward 0, Criterion 0, DecodeSearch 0, DecodeSequence 0,
           Forward 1, Criterion 1, DecodeSearch 1, DecodeSequence 1, ReduceLoss],
          Inl NotATensor)"
  by (simp add: inference_def compute_on_dataset_def cod_init_def shard_7_7_9_def demo_def
        Let_def reduce_loss_def get_world_size_def rank1_of_two_def dist_reduce_def
        is_main_process_def)

subsection \<open>C8: the order of the steps of \<^verbatim>\<open>inference\<close>\<close>

text \<open>Claim C8 states that in every call of \<^verbatim>\<open>inference\<close> the local evaluation completes, then
  the loss reduction returns, then the barrier is called, then the gather, and then the
  root scores. On rank 0 of two processes the local evaluation of three batches completes
  and the loss reduction is entered, but it raises: the call ends there, and neither the
  barrier nor the gather nor the scoring is ever called.\<close>

theorem inference_stops_at_reduce_loss:
  "is_main_process root_of_two \<and> world_size root_of_two = 2
   \<and> inference root_of_two demo demo_eval 3 shard_2_4_6
       = ([Forward 0, Criterion 0, DecodeSearch 0, DecodeSequence 0,
           Forward 1, Criterion 1, DecodeSearch 1, DecodeSequence 1,
           Forward 2, Criterion 2, DecodeSearch 2, DecodeSequence 2, ReduceLoss],
          Inl NotATensor)"
  by (simp add: inference_def compute_on_dataset_def cod_init_def shard_2_4_6_def demo_def
        Let_def reduce_loss_def get_world_size_def root_of_two_def dist_reduce_def
        is_main_process_def)

subsection \<open>C9: a batch of duplicates is still evaluated\<close>

text \<open>Claim C9: a batch whose identifiers have all been seen in earlier batches still runs the
  forward pass, the criterion, the beam search and the conversion to strings, and still
  counts in the mean loss; the predictions are those of the shard without that batch.\<close>

theorem duplicate_batch_still_evaluated:
  assumes "well_formed c beam_size (bs @ data # rest)"
    and "fst ` set (batch_observations c beam_size data) \<subseteq> fst ` set (observations c beam_size bs)"
  shows "compute_on_dataset c beam_size (bs @ data # rest) =
     (local_eval_events 0 (length bs)
        @ [Forward (length bs), Criterion (length bs), DecodeSearch (length bs),
           DecodeSequence (length bs)]
        @ local_eval_events (Suc (length bs)) (length rest),
      Inr (entries (first_occurrences (observations c beam_size (bs @ rest))),
           (sum_list (map (batch_loss c) bs) + batch_loss c data + sum_list (map (batch_loss c) rest))
             / real (length bs + 1 + length rest)))"
proof -
  have ev: "local_eval_events 0 (Suc (length bs + length rest)) =
      local_eval_events 0 (length bs) @ batch_events (length bs)
        @ local_eval_events (Suc (length bs)) (length rest)"
    using local_eval_events_add [of 0 "length bs" "Suc (length rest)"]
    by (simp add: local_eval_events_Suc)
  have fo: "first_occurrences (observations c beam_size (bs @ data # rest))
      = first_occurrences (observations c beam_size (bs @ rest))"
    using first_occurrences_drop_seen [OF assms(2)]
    by (simp add: observations_append observations_Cons)
  show ?thesis
    using compute_on_dataset_ok [OF assms(1)]
    by (simp add: ev fo batch_events_def add.assoc)
qed

text \<open>Claim C9 on three batches whose second repeats the identifiers of the first.\<close>

theorem duplicate_batch_still_evaluated_witness:
  "well_formed demo 3 shard_dup
   \<and> compute_on_dataset demo 3 shard_dup =
       ([Forward 0, Criterion 0, DecodeSearch 0, DecodeSequence 0,
         Forward 1, Criterion 1, DecodeSearch 1, DecodeSequence 1,
         Forward 2, Criterion 2, DecodeSearch 2, DecodeSequence 2],
        Inr ([mk_entry 1 ''a'', mk_entry 2 ''b'', mk_entry 3 ''e''], 3))"
proof -
  let ?b0 = "\<lparr>b_ids = [1, 2], b_loss = 1, b_sents = [''a'', ''b'']\<rparr>"
  let ?b1 = "\<lparr>b_ids = [2, 1], b_loss = 5, b_sents = [''c'', ''d'']\<rparr>"
  let ?b2 = "\<lparr>b_ids = [3], b_loss = 3, b_sents = [''e'']\<rparr>"
  have split: "shard_dup = [?b0] @ ?b1 # [?b2]"
    by (simp add: shard_dup_def)
  have wf: "well_formed demo 3 ([?b0] @ ?b1 # [?b2])"
    by (simp add: well_formed_def demo_def sents_of_def)
  have dup: "fst ` set (batch_observations demo 3 ?b1) \<subseteq> fst ` set (observations demo 3 [?b0])"
    by (simp add: batch_observations_def observations_def demo_def sents_of_def)
  have fo: "entries (first_occurrences (observations demo 3 ([?b0] @ [?b2])))
      = [mk_entry 1 ''a'', mk_entry 2 ''b'', mk_entry 3 ''e'']"
    by (simp add: first_occurrences_def observations_def batch_observations_def demo_def
        sents_of_def entries_def)
  have ev: "local_eval_events 0 (length [?b0]) = batch_events 0"
    "local_eval_events (Suc (length [?b0])) (length [?b2]) = batch_events 2"
    by (simp_all add: local_eval_events_def numeral_2_eq_2)
  have ls: "(sum_list (map (batch_loss demo) [?b0]) + batch_loss demo ?b1
        + sum_list (map (batch_loss demo) [?b2])) / real (length [?b0] + 1 + length [?b2]) = 3"
    by (simp add: batch_loss_def demo_def)
  have "compute_on_dataset demo 3 ([?b0] @ ?b1 # [?b2]) =
       (batch_events 0 @ [Forward 1, Criterion 1, DecodeSearch 1, DecodeSequence 1] @ batch_events 2,
        Inr ([mk_entry 1 ''a'', mk_entry 2 ''b'', mk_entry 3 ''e''], 3))"
    using duplicate_batch_still_evaluated [OF wf dup] unfolding fo ev ls by simp
  with wf show ?thesis
    by (simp add: split batch_events_def)
qed

subsection \<open>C10: the driver on a process that is not the root\<close>

text \<open>Claim C10 states that on a process that is not the root \<^verbatim>\<open>test\<close> receives three nulls, writes
  the null predictions and then raises AttributeError. On rank 1 of two processes the code
  raises inside \<^verbatim>\<open>reduce_loss\<close>: \<^verbatim>\<open>test\<close> receives nothing and writes nothing.\<close>

theorem test_non_root_raises:
  "\<not> is_main_process rank1_of_two
   \<and> test rank1_of_two demo demo_eval 3 False shard_7_7_9
       = ([Forward 0, Criterion 0, DecodeSearch 0, DecodeSequence 0,
           Forward 1, Criterion 1, DecodeSearch 1, DecodeSequence 1, ReduceLoss],
          Inl NotATensor)"
  by (simp add: test_def inference_def compute_on_dataset_def cod_init_def shard_7_7_9_def demo_def
        Let_def reduce_loss_def get_world_size_def rank1_of_two_def dist_reduce_def
        is_main_process_def)

end
